theory Spec2Isabelle
  imports Complex_Main
begin

section \<open>Numbers\<close>

text \<open>
  The game is written in JavaScript, whose numbers are IEEE doubles. The model computes
  in exact arithmetic over \<^typ>\<open>real\<close>; rounding and overflow are outside of it. The one
  place where the program can leave the finite numbers from finite inputs is the pair
  of quotients in \<open>lineCircleIntersection\<close>, whose divisor \<open>2 * a\<close> is zero for a segment
  of length zero. HOL's \<open>x / 0 = 0\<close> is not what JavaScript computes there, so the
  quotient is a value of its own type: a finite number, an infinity or NaN.
\<close>

datatype jsnum = Num real | PosInfinity | NegInfinity | NaN

text \<open>
  \<open>n / d\<close> for finite \<open>n\<close> and \<open>d\<close>, where a zero divisor is \<open>+0\<close> (the divisor of the
  program is twice a sum of two squares): \<open>0 / 0\<close> is NaN, and a nonzero numerator
  gives the infinity of its sign.
\<close>

definition js_div :: "real \<Rightarrow> real \<Rightarrow> jsnum" where
  "js_div n d =
     (if d \<noteq> 0 then Num (n / d)
      else if n = 0 then NaN
      else if 0 < n then PosInfinity
      else NegInfinity)"

text \<open>
  The test \<open>t >= 0.0 && t <= 1.0\<close>: it gives the finite value that passed it. Every
  comparison with NaN is false, \<open>-Infinity >= 0\<close> is false and \<open>Infinity <= 1\<close> is false.
\<close>

definition in_unit :: "jsnum \<Rightarrow> real option" where
  "in_unit t =
     (case t of
        Num v \<Rightarrow> if 0 \<le> v \<and> v \<le> 1 then Some v else None
      | PosInfinity \<Rightarrow> None
      | NegInfinity \<Rightarrow> None
      | NaN \<Rightarrow> None)"


section \<open>World configuration\<close>

definition SURFACE_Y_WORLD :: real where "SURFACE_Y_WORLD = 0"
definition MAX_DEPTH_WORLD :: real where "MAX_DEPTH_WORLD = - 900"

definition ORIGIN_X_MIN :: real where "ORIGIN_X_MIN = 100"
definition ORIGIN_X_MAX :: real where "ORIGIN_X_MAX = 900"

definition TARGET_Y_MIN :: real where "TARGET_Y_MIN = - 500"
definition TARGET_Y_MAX :: real where "TARGET_Y_MAX = MAX_DEPTH_WORLD"
definition TARGET_RADIUS_MIN :: real where "TARGET_RADIUS_MIN = 5"
definition TARGET_RADIUS_MAX :: real where "TARGET_RADIUS_MAX = 20"
definition TARGET_X_MIN :: real where "TARGET_X_MIN = 250"
definition TARGET_X_MAX :: real where "TARGET_X_MAX = 900"

definition DRILL_COST_PER_METER :: real where "DRILL_COST_PER_METER = 300"

definition ANGLE_MIN :: real where "ANGLE_MIN = - 180"
definition ANGLE_MAX :: real where "ANGLE_MAX = 0"
definition ANGLE_DEFAULT :: real where "ANGLE_DEFAULT = - 90"


section \<open>Utilities\<close>

definition clamp :: "real \<Rightarrow> real \<Rightarrow> real \<Rightarrow> real" where
  "clamp v a b = max a (min b v)"

definition deg2rad :: "real \<Rightarrow> real" where
  "deg2rad d = d * pi / 180"

text \<open>A JavaScript array \<open>[x, y]\<close> of two numbers is a pair.\<close>

type_synonym point = "real \<times> real"

text \<open>
  The loop \<open>for (const t of [t1, t2])\<close>: the first candidate that passes the test ends
  the routine with the point at that parameter. The routine's \<open>[false, null]\<close> is
  \<open>None\<close> and its \<open>[true, [ix, iy]]\<close> is \<open>Some (ix, iy)\<close>.
\<close>

fun first_root :: "jsnum list \<Rightarrow> real \<Rightarrow> real \<Rightarrow> real \<Rightarrow> real \<Rightarrow> point option" where
  "first_root [] x1 y1 dx dy = None"
| "first_root (t # ts) x1 y1 dx dy =
     (case in_unit t of
        Some v \<Rightarrow> Some (x1 + v * dx, y1 + v * dy)
      | None \<Rightarrow> first_root ts x1 y1 dx dy)"

definition lineCircleIntersection :: "point \<Rightarrow> point \<Rightarrow> point \<Rightarrow> real \<Rightarrow> point option" where
  "lineCircleIntersection p0 p1 c r =
     (let x1 = fst p0; y1 = snd p0;
          x2 = fst p1; y2 = snd p1;
          cx = fst c; cy = snd c;
          dx = x2 - x1;
          dy = y2 - y1;
          fx = x1 - cx;
          fy = y1 - cy;
          a = dx * dx + dy * dy;
          b = 2 * (fx * dx + fy * dy);
          cterm = fx * fx + fy * fy - r * r;
          disc = b * b - 4 * a * cterm
      in if disc < 0 then None
         else
           let discSqrt = sqrt disc;
               t1 = js_div (- b - discSqrt) (2 * a);
               t2 = js_div (- b + discSqrt) (2 * a)
           in first_root [t1, t2] x1 y1 dx dy)"


section \<open>Game state\<close>

datatype tag = Aim | Drilling | Win | Lose

record game =
  angle :: real
  origin_x :: real
  target_x :: real
  target_y :: real
  target_radius :: real
  state :: tag
  drill_tip :: point
  drill_speed_mps :: real
  result_point :: "point option"
  tries_remaining :: int
  drill_path_length :: real
  total_cost :: real
  accumulated_cost :: real

text \<open>
  \<open>resetRound\<close> calls \<open>Math.random()\<close> four times; the four results, each in \<open>[0, 1)\<close>,
  are a parameter, in the order of the calls.
\<close>

type_synonym draws = "real \<times> real \<times> real \<times> real"

definition valid_draws :: "draws \<Rightarrow> bool" where
  "valid_draws rnd =
     (case rnd of (u1, u2, u3, u4) \<Rightarrow>
        0 \<le> u1 \<and> u1 < 1 \<and> 0 \<le> u2 \<and> u2 < 1 \<and> 0 \<le> u3 \<and> u3 < 1 \<and> 0 \<le> u4 \<and> u4 < 1)"

definition resetRound :: "draws \<Rightarrow> game \<Rightarrow> game" where
  "resetRound rnd g =
     (case rnd of (u1, u2, u3, u4) \<Rightarrow>
        let ox = u1 * (ORIGIN_X_MAX - ORIGIN_X_MIN) + ORIGIN_X_MIN
        in g\<lparr>origin_x := ox,
             target_x := u2 * (TARGET_X_MAX - TARGET_X_MIN) + TARGET_X_MIN,
             target_y := u3 * (TARGET_Y_MAX - TARGET_Y_MIN) + TARGET_Y_MIN,
             target_radius := u4 * (TARGET_RADIUS_MAX - TARGET_RADIUS_MIN) + TARGET_RADIUS_MIN,
             state := Aim,
             drill_tip := (ox, SURFACE_Y_WORLD),
             drill_speed_mps := 900,
             result_point := None,
             tries_remaining := 3,
             drill_path_length := 0,
             total_cost := 0,
             accumulated_cost := 0\<rparr>)"

text \<open>
  The constructor assigns \<open>angle\<close> and \<open>origin_x\<close> and calls \<open>resetRound\<close>, which assigns
  every other field; the values those fields have here before the call are never read.
\<close>

definition new_Game :: "draws \<Rightarrow> game" where
  "new_Game rnd =
     resetRound rnd
       \<lparr>angle = ANGLE_DEFAULT, origin_x = 0,
        target_x = 0, target_y = 0, target_radius = 0, state = Aim, drill_tip = (0, 0),
        drill_speed_mps = 0, result_point = None, tries_remaining = 0,
        drill_path_length = 0, total_cost = 0, accumulated_cost = 0\<rparr>"

definition getOrigin :: "game \<Rightarrow> point" where
  "getOrigin g = (origin_x g, SURFACE_Y_WORLD)"

definition startDrill :: "game \<Rightarrow> game" where
  "startDrill g =
     (if state g \<noteq> Aim then g
      else g\<lparr>state := Drilling,
             drill_tip := getOrigin g,
             result_point := None,
             drill_path_length := 0\<rparr>)"

definition update :: "real \<Rightarrow> game \<Rightarrow> game" where
  "update dt g =
     (if state g \<noteq> Drilling then g
      else
        let theta = deg2rad (angle g);
            vx = cos theta;
            vy = sin theta;
            step = drill_speed_mps g * dt;
            nx = fst (drill_tip g) + vx * step;
            ny = snd (drill_tip g) + vy * step
        in case lineCircleIntersection (drill_tip g) (nx, ny)
                  (target_x g, target_y g) (target_radius g) of
             Some ipt \<Rightarrow>
               let final_dx = fst ipt - fst (drill_tip g);
                   final_dy = snd ipt - snd (drill_tip g);
                   final_segment = sqrt (final_dx * final_dx + final_dy * final_dy);
                   len = drill_path_length g + final_segment;
                   cost = len * DRILL_COST_PER_METER
               in g\<lparr>drill_path_length := len,
                    drill_tip := ipt,
                    state := Win,
                    result_point := Some ipt,
                    total_cost := cost,
                    accumulated_cost := accumulated_cost g + cost\<rparr>
           | None \<Rightarrow>
               let dx = nx - fst (drill_tip g);
                   dy = ny - snd (drill_tip g);
                   segment_length = sqrt (dx * dx + dy * dy);
                   len = drill_path_length g + segment_length
               in if ny \<le> MAX_DEPTH_WORLD \<or> nx > 1100
                  then
                    let cost = len * DRILL_COST_PER_METER
                    in g\<lparr>drill_path_length := len,
                         drill_tip := (nx, ny),
                         total_cost := cost,
                         accumulated_cost := accumulated_cost g + cost,
                         state := Lose,
                         result_point := None,
                         tries_remaining := tries_remaining g - 1\<rparr>
                  else g\<lparr>drill_path_length := len, drill_tip := (nx, ny)\<rparr>)"


section \<open>Input handlers\<close>

text \<open>
  The click handler of the drill button: it starts an attempt while aiming, and resumes
  aiming after a miss while tries remain.
\<close>

definition drillBtn_click :: "game \<Rightarrow> game" where
  "drillBtn_click g =
     (if state g = Aim then startDrill g
      else if state g = Lose \<and> tries_remaining g > 0 then g\<lparr>state := Aim\<rparr>
      else g)"

definition newRoundBtn_click :: "draws \<Rightarrow> game \<Rightarrow> game" where
  "newRoundBtn_click rnd g =
     (if state g = Win \<or> state g = Lose \<or> state g = Aim then resetRound rnd g else g)"

text \<open>
  The keys the keydown handler tells apart; \<open>KeyN\<close> is \<open>n\<close> or \<open>N\<close>. On Escape the
  handler closes the help dialog when it is open and returns, and otherwise falls
  through to the second chain of tests, none of which Escape passes: the game is not
  touched either way.
\<close>

datatype key = Escape | ArrowLeft | ArrowRight | Space | KeyN | OtherKey

definition keydown :: "key \<Rightarrow> draws \<Rightarrow> game \<Rightarrow> game" where
  "keydown k rnd g =
     (let g1 =
        (if k = Escape then g
         else if state g = Aim then
           (if k = ArrowLeft then g\<lparr>angle := clamp (angle g - 1) ANGLE_MIN ANGLE_MAX\<rparr>
            else if k = ArrowRight then g\<lparr>angle := clamp (angle g + 1) ANGLE_MIN ANGLE_MAX\<rparr>
            else g)
         else g)
      in if k = Space then
           (if state g1 = Aim then startDrill g1
            else if state g1 = Lose \<and> tries_remaining g1 > 0 then g1\<lparr>state := Aim\<rparr>
            else g1)
         else if k = KeyN then
           (if state g1 = Win \<or> state g1 = Lose \<or> state g1 = Aim then resetRound rnd g1
            else g1)
         else g1)"

text \<open>
  What can happen to the game object after its construction: a frame of the game loop,
  which calls \<open>update\<close> with the elapsed time, a click on one of the two buttons, or a
  key press. The draws are those a \<open>resetRound\<close> of the handler would consume.
\<close>

datatype event = Tick real | DrillClick | NewRoundClick draws | KeyDown key draws

fun handle :: "event \<Rightarrow> game \<Rightarrow> game" where
  "handle (Tick dt) g = update dt g"
| "handle DrillClick g = drillBtn_click g"
| "handle (NewRoundClick rnd) g = newRoundBtn_click rnd g"
| "handle (KeyDown k rnd) g = keydown k rnd g"

fun event_draws_ok :: "event \<Rightarrow> bool" where
  "event_draws_ok (Tick dt) = True"
| "event_draws_ok DrillClick = True"
| "event_draws_ok (NewRoundClick rnd) = valid_draws rnd"
| "event_draws_ok (KeyDown k rnd) = valid_draws rnd"

text \<open>The states of the game object: a fresh game, and whatever events make of it.\<close>

inductive reachable :: "game \<Rightarrow> bool" where
  fresh: "valid_draws rnd \<Longrightarrow> reachable (new_Game rnd)"
| after: "reachable g \<Longrightarrow> event_draws_ok e \<Longrightarrow> reachable (handle e g)"

fun run :: "event list \<Rightarrow> game \<Rightarrow> game" where
  "run [] g = g"
| "run (e # es) g = run es (handle e g)"


section \<open>Quantities of the intersection routine\<close>

text \<open>The coefficients of the quadratic in the segment parameter, and its two roots.\<close>

definition qa :: "point \<Rightarrow> point \<Rightarrow> real" where
  "qa p0 p1 = (fst p1 - fst p0)\<^sup>2 + (snd p1 - snd p0)\<^sup>2"

definition qb :: "point \<Rightarrow> point \<Rightarrow> point \<Rightarrow> real" where
  "qb p0 p1 c =
     2 * ((fst p0 - fst c) * (fst p1 - fst p0) + (snd p0 - snd c) * (snd p1 - snd p0))"

definition qc :: "point \<Rightarrow> point \<Rightarrow> real \<Rightarrow> real" where
  "qc p0 c r = (fst p0 - fst c)\<^sup>2 + (snd p0 - snd c)\<^sup>2 - r\<^sup>2"

definition discriminant :: "point \<Rightarrow> point \<Rightarrow> point \<Rightarrow> real \<Rightarrow> real" where
  "discriminant p0 p1 c r = (qb p0 p1 c)\<^sup>2 - 4 * qa p0 p1 * qc p0 c r"

definition root1 :: "point \<Rightarrow> point \<Rightarrow> point \<Rightarrow> real \<Rightarrow> jsnum" where
  "root1 p0 p1 c r = js_div (- qb p0 p1 c - sqrt (discriminant p0 p1 c r)) (2 * qa p0 p1)"

definition root2 :: "point \<Rightarrow> point \<Rightarrow> point \<Rightarrow> real \<Rightarrow> jsnum" where
  "root2 p0 p1 c r = js_div (- qb p0 p1 c + sqrt (discriminant p0 p1 c r)) (2 * qa p0 p1)"

text \<open>The point of the segment at parameter \<open>t\<close>.\<close>

definition along :: "point \<Rightarrow> point \<Rightarrow> real \<Rightarrow> point" where
  "along p0 p1 t = (fst p0 + t * (fst p1 - fst p0), snd p0 + t * (snd p1 - snd p0))"

definition distance :: "point \<Rightarrow> point \<Rightarrow> real" where
  "distance p q = sqrt ((fst q - fst p) * (fst q - fst p) + (snd q - snd p) * (snd q - snd p))"

section \<open>Traces\<close>

text \<open>The candidate next tip of an update step, and the hit test of that step.\<close>

definition next_tip :: "real \<Rightarrow> game \<Rightarrow> point" where
  "next_tip dt g =
     (fst (drill_tip g) + cos (deg2rad (angle g)) * (drill_speed_mps g * dt),
      snd (drill_tip g) + sin (deg2rad (angle g)) * (drill_speed_mps g * dt))"

definition hit_test :: "real \<Rightarrow> game \<Rightarrow> point option" where
  "hit_test dt g =
     lineCircleIntersection (drill_tip g) (next_tip dt g) (target_x g, target_y g)
       (target_radius g)"

text \<open>The frames of one attempt: \<open>update\<close> called with each time delta in turn.\<close>

fun updates :: "real list \<Rightarrow> game \<Rightarrow> game" where
  "updates [] g = g"
| "updates (dt # dts) g = updates dts (update dt g)"

text \<open>
  The game loop with the time deltas \<open>dts 0\<close>, \<open>dts 1\<close>, ...: the game after its first
  \<open>n\<close> frames.
\<close>

primrec frames :: "(nat \<Rightarrow> real) \<Rightarrow> nat \<Rightarrow> game \<Rightarrow> game" where
  "frames dts 0 g = g"
| "frames dts (Suc n) g = update (dts n) (frames dts n g)"

text \<open>The positions of the tip before the first frame and after each one.\<close>

fun tips :: "real list \<Rightarrow> game \<Rightarrow> point list" where
  "tips [] g = [drill_tip g]"
| "tips (dt # dts) g = drill_tip g # tips dts (update dt g)"

text \<open>The sum of the Euclidean lengths of the segments between consecutive points.\<close>

fun polyline_length :: "point list \<Rightarrow> real" where
  "polyline_length (p # q # ps) = distance p q + polyline_length (q # ps)"
| "polyline_length ps = 0"

text \<open>An event that calls \<open>resetRound\<close> in the state it meets.\<close>

fun resets :: "event \<Rightarrow> game \<Rightarrow> bool" where
  "resets (NewRoundClick rnd) g = (state g \<noteq> Drilling)"
| "resets (KeyDown k rnd) g = (k = KeyN \<and> state g \<noteq> Drilling)"
| "resets e g = False"

text \<open>An event that ends a drilling attempt, in a win or in a loss.\<close>

definition completes :: "event \<Rightarrow> game \<Rightarrow> bool" where
  "completes e g =
     (state g = Drilling \<and> (state (handle e g) = Win \<or> state (handle e g) = Lose))"

text \<open>
  The final path lengths of the attempts completed since the last \<open>resetRound\<close>, oldest
  first, along a sequence of events; \<open>ended\<close> holds those completed before it.
\<close>

fun attempt_lengths :: "event list \<Rightarrow> game \<Rightarrow> real list \<Rightarrow> real list" where
  "attempt_lengths [] g ended = ended"
| "attempt_lengths (e # es) g ended =
     attempt_lengths es (handle e g)
       (if resets e g then []
        else if completes e g then ended @ [drill_path_length (handle e g)]
        else ended)"

text \<open>The game constructed when every draw of \<open>Math.random()\<close> is \<open>1/2\<close>.\<close>

definition mid_draws :: draws where
  "mid_draws = (1 / 2, 1 / 2, 1 / 2, 1 / 2)"

definition mid_game :: game where
  "mid_game = new_Game mid_draws"


text \<open>
  The game constructed with the draws \<open>1/2\<close>, \<open>5/13\<close>, \<open>1/4\<close> and \<open>1/3\<close>: its target, of
  radius 10, lies straight below the origin, at depth 600.
\<close>

definition plumb_draws :: draws where
  "plumb_draws = (1 / 2, 5 / 13, 1 / 4, 1 / 3)"

definition plumb_game :: game where
  "plumb_game = new_Game plumb_draws"


section \<open>Invariant\<close>

text \<open>
  What holds of the game object in every state it can be in: the round's parameters lie
  in the ranges they are drawn from, the tries are between 0 and 3 and at least 1 while
  an attempt can still be made or is under way, the result point is there exactly in a
  win, where it is the tip and lies on the target circle, and the tip of an attempt under
  way is inside the depth and lateral bounds.
\<close>

definition round_ok :: "game \<Rightarrow> bool" where
  "round_ok g \<longleftrightarrow>
     drill_speed_mps g = 900 \<and>
     ORIGIN_X_MIN \<le> origin_x g \<and> origin_x g < ORIGIN_X_MAX \<and>
     TARGET_X_MIN \<le> target_x g \<and> target_x g < TARGET_X_MAX \<and>
     TARGET_Y_MAX < target_y g \<and> target_y g \<le> TARGET_Y_MIN \<and>
     TARGET_RADIUS_MIN \<le> target_radius g \<and> target_radius g < TARGET_RADIUS_MAX \<and>
     ANGLE_MIN \<le> angle g \<and> angle g \<le> ANGLE_MAX"

definition session_ok :: "game \<Rightarrow> bool" where
  "session_ok g \<longleftrightarrow>
     0 \<le> tries_remaining g \<and> tries_remaining g \<le> 3 \<and>
     (state g = Aim \<or> state g = Drilling \<longrightarrow> 1 \<le> tries_remaining g) \<and>
     0 \<le> drill_path_length g \<and> 0 \<le> accumulated_cost g"

definition attempt_ok :: "game \<Rightarrow> bool" where
  "attempt_ok g \<longleftrightarrow>
     (result_point g \<noteq> None \<longleftrightarrow> state g = Win) \<and>
     (state g = Win \<longrightarrow>
        result_point g = Some (drill_tip g) \<and>
        (fst (drill_tip g) - target_x g)\<^sup>2 + (snd (drill_tip g) - target_y g)\<^sup>2 =
          (target_radius g)\<^sup>2) \<and>
     (state g = Drilling \<longrightarrow>
        MAX_DEPTH_WORLD < snd (drill_tip g) \<and> fst (drill_tip g) \<le> 1100)"

definition game_inv :: "game \<Rightarrow> bool" where
  "game_inv g \<longleftrightarrow> round_ok g \<and> session_ok g \<and> attempt_ok g"


section \<open>Properties of the intersection routine\<close>

lemmas config_defs =
  SURFACE_Y_WORLD_def MAX_DEPTH_WORLD_def ORIGIN_X_MIN_def ORIGIN_X_MAX_def
  TARGET_Y_MIN_def TARGET_Y_MAX_def TARGET_RADIUS_MIN_def TARGET_RADIUS_MAX_def
  TARGET_X_MIN_def TARGET_X_MAX_def DRILL_COST_PER_METER_def
  ANGLE_MIN_def ANGLE_MAX_def ANGLE_DEFAULT_def

lemma lineCircleIntersection_roots:
  "lineCircleIntersection p0 p1 c r =
     (if discriminant p0 p1 c r < 0 then None
      else case in_unit (root1 p0 p1 c r) of
             Some v \<Rightarrow> Some (along p0 p1 v)
           | None \<Rightarrow>
               (case in_unit (root2 p0 p1 c r) of
                  Some v \<Rightarrow> Some (along p0 p1 v)
                | None \<Rightarrow> None))"
  by (simp add: lineCircleIntersection_def Let_def discriminant_def root1_def root2_def
      qa_def qb_def qc_def along_def power2_eq_square split: option.splits)

lemma in_unit_Some: "in_unit t = Some v \<longleftrightarrow> t = Num v \<and> 0 \<le> v \<and> v \<le> 1"
  by (cases t) (auto simp: in_unit_def)

lemma js_div_Num: "js_div n d = Num v \<longleftrightarrow> d \<noteq> 0 \<and> v = n / d"
  by (auto simp: js_div_def)

lemma roots_ordered:
  assumes "0 \<le> discriminant p0 p1 c r"
    and "root1 p0 p1 c r = Num v1" and "root2 p0 p1 c r = Num v2"
  shows "v1 \<le> v2"
proof -
  have a0: "qa p0 p1 \<noteq> 0" and v1: "v1 = (- qb p0 p1 c - sqrt (discriminant p0 p1 c r)) / (2 * qa p0 p1)"
    and v2: "v2 = (- qb p0 p1 c + sqrt (discriminant p0 p1 c r)) / (2 * qa p0 p1)"
    using assms(2,3) by (auto simp: root1_def root2_def js_div_Num)
  have "0 \<le> qa p0 p1" by (simp add: qa_def)
  with a0 have "0 < 2 * qa p0 p1" by simp
  moreover have "- qb p0 p1 c - sqrt (discriminant p0 p1 c r) \<le> - qb p0 p1 c + sqrt (discriminant p0 p1 c r)"
    using assms(1) by simp
  ultimately show ?thesis unfolding v1 v2 by (simp add: divide_right_mono)
qed

lemma distance_along: "distance p0 (along p0 p1 t) = \<bar>t\<bar> * sqrt (qa p0 p1)"
proof -
  have "(t * (fst p1 - fst p0)) * (t * (fst p1 - fst p0)) + (t * (snd p1 - snd p0)) * (t * (snd p1 - snd p0))
      = t\<^sup>2 * qa p0 p1"
    by (simp add: qa_def power2_eq_square algebra_simps)
  then show ?thesis
    by (simp add: distance_def along_def real_sqrt_mult)
qed

text \<open>
  C1. Whatever the segment from \<open>p0\<close> to \<open>p1\<close> and the circle of centre \<open>c\<close> and radius
  \<open>r\<close>: with a negative discriminant the routine reports no hit; otherwise it reports a
  hit at the point of the first root \<open>t1\<close> when that lies in \<open>[0, 1]\<close>, else at the point
  of the second root \<open>t2\<close> when that does, else no hit. When both roots lie in \<open>[0, 1]\<close>
  the first is the smaller one and its point is the nearer to \<open>p0\<close>: the entry point is
  returned, never the exit point.
\<close>

theorem lineCircleIntersection_first_root:
  "(discriminant p0 p1 c r < 0 \<longrightarrow> lineCircleIntersection p0 p1 c r = None) \<and>
   (0 \<le> discriminant p0 p1 c r \<longrightarrow> in_unit (root1 p0 p1 c r) = Some v \<longrightarrow>
      lineCircleIntersection p0 p1 c r = Some (along p0 p1 v)) \<and>
   (0 \<le> discriminant p0 p1 c r \<longrightarrow> in_unit (root1 p0 p1 c r) = None \<longrightarrow>
      in_unit (root2 p0 p1 c r) = Some v \<longrightarrow>
      lineCircleIntersection p0 p1 c r = Some (along p0 p1 v)) \<and>
   (0 \<le> discriminant p0 p1 c r \<longrightarrow> in_unit (root1 p0 p1 c r) = None \<longrightarrow>
      in_unit (root2 p0 p1 c r) = None \<longrightarrow> lineCircleIntersection p0 p1 c r = None) \<and>
   (0 \<le> discriminant p0 p1 c r \<longrightarrow> in_unit (root1 p0 p1 c r) = Some v1 \<longrightarrow>
      in_unit (root2 p0 p1 c r) = Some v2 \<longrightarrow>
      v1 \<le> v2 \<and> distance p0 (along p0 p1 v1) \<le> distance p0 (along p0 p1 v2))"
proof -
  have ordered: "v1 \<le> v2 \<and> distance p0 (along p0 p1 v1) \<le> distance p0 (along p0 p1 v2)"
    if d: "0 \<le> discriminant p0 p1 c r" and r1: "in_unit (root1 p0 p1 c r) = Some v1"
      and r2: "in_unit (root2 p0 p1 c r) = Some v2"
  proof -
    from r1 r2 have n1: "root1 p0 p1 c r = Num v1" and n2: "root2 p0 p1 c r = Num v2"
      and pos: "0 \<le> v1" "0 \<le> v2"
      by (simp_all add: in_unit_Some)
    from roots_ordered [OF d n1 n2] have le: "v1 \<le> v2" .
    with pos have "\<bar>v1\<bar> * sqrt (qa p0 p1) \<le> \<bar>v2\<bar> * sqrt (qa p0 p1)"
      by (intro mult_right_mono) (simp_all add: qa_def)
    with le show ?thesis by (simp add: distance_along)
  qed
  show ?thesis
    using ordered by (simp add: lineCircleIntersection_roots)
qed

lemma sqrt_64: "sqrt 64 = 8"
  by (rule real_sqrt_unique) simp_all

theorem lineCircleIntersection_first_root_witness:
  "lineCircleIntersection (0, 0) (4, 0) (2, 5) 1 = None \<and>
   lineCircleIntersection (0, 0) (4, 0) (2, 0) 1 = Some (1, 0) \<and>
   lineCircleIntersection (2, 0) (6, 0) (2, 0) 1 = Some (3, 0) \<and>
   lineCircleIntersection (0, 0) (4, 0) (10, 0) 1 = None \<and>
   distance (0, 0) (along (0, 0) (4, 0) (1 / 4)) \<le> distance (0, 0) (along (0, 0) (4, 0) (3 / 4))"
proof -
  have d1: "discriminant (0, 0) (4, 0) (2, 5) 1 < 0"
    by (simp add: discriminant_def qa_def qb_def qc_def)
  have d2: "discriminant (0, 0) (4, 0) (2, 0) 1 = 64"
    by (simp add: discriminant_def qa_def qb_def qc_def)
  have r2: "in_unit (root1 (0, 0) (4, 0) (2, 0) 1) = Some (1 / 4)"
      "in_unit (root2 (0, 0) (4, 0) (2, 0) 1) = Some (3 / 4)"
    by (simp_all add: root1_def root2_def d2 sqrt_64 qa_def qb_def js_div_def in_unit_def)
  have d3: "discriminant (2, 0) (6, 0) (2, 0) 1 = 64"
    by (simp add: discriminant_def qa_def qb_def qc_def)
  have r3: "in_unit (root1 (2, 0) (6, 0) (2, 0) 1) = None"
      "in_unit (root2 (2, 0) (6, 0) (2, 0) 1) = Some (1 / 4)"
    by (simp_all add: root1_def root2_def d3 sqrt_64 qa_def qb_def js_div_def in_unit_def)
  have d4: "discriminant (0, 0) (4, 0) (10, 0) 1 = 64"
    by (simp add: discriminant_def qa_def qb_def qc_def)
  have r4: "in_unit (root1 (0, 0) (4, 0) (10, 0) 1) = None"
      "in_unit (root2 (0, 0) (4, 0) (10, 0) 1) = None"
    by (simp_all add: root1_def root2_def d4 sqrt_64 qa_def qb_def js_div_def in_unit_def)
  show ?thesis
    using lineCircleIntersection_first_root [of "(0, 0)" "(4, 0)" "(2, 5)" 1] d1
      lineCircleIntersection_first_root [of "(0, 0)" "(4, 0)" "(2, 0)" 1 "1 / 4" "1 / 4" "3 / 4"] d2 r2
      lineCircleIntersection_first_root [of "(2, 0)" "(6, 0)" "(2, 0)" 1 "1 / 4"] d3 r3
      lineCircleIntersection_first_root [of "(0, 0)" "(4, 0)" "(10, 0)" 1] d4 r4
    by (simp add: along_def)
qed

section \<open>Properties of one update step\<close>

lemma distance_nonneg: "0 \<le> distance p q"
  by (simp add: distance_def)

lemma distance_same: "distance p p = 0"
  by (simp add: distance_def)

lemma update_idle: "state g \<noteq> Drilling \<Longrightarrow> update dt g = g"
  by (simp add: update_def)

lemma update_win:
  assumes "state g = Drilling" and "hit_test dt g = Some ipt"
  shows "update dt g =
    g\<lparr>drill_path_length := drill_path_length g + distance (drill_tip g) ipt,
      drill_tip := ipt, state := Win, result_point := Some ipt,
      total_cost := (drill_path_length g + distance (drill_tip g) ipt) * DRILL_COST_PER_METER,
      accumulated_cost := accumulated_cost g +
        (drill_path_length g + distance (drill_tip g) ipt) * DRILL_COST_PER_METER\<rparr>"
  using assms by (simp add: update_def hit_test_def next_tip_def Let_def distance_def)

lemma update_lose:
  assumes "state g = Drilling" and "hit_test dt g = None"
    and "snd (next_tip dt g) \<le> MAX_DEPTH_WORLD \<or> fst (next_tip dt g) > 1100"
  shows "update dt g =
    g\<lparr>drill_path_length := drill_path_length g + distance (drill_tip g) (next_tip dt g),
      drill_tip := next_tip dt g,
      total_cost :=
        (drill_path_length g + distance (drill_tip g) (next_tip dt g)) * DRILL_COST_PER_METER,
      accumulated_cost := accumulated_cost g +
        (drill_path_length g + distance (drill_tip g) (next_tip dt g)) * DRILL_COST_PER_METER,
      state := Lose, result_point := None, tries_remaining := tries_remaining g - 1\<rparr>"
  using assms by (simp add: update_def hit_test_def next_tip_def Let_def distance_def)

lemma update_advance:
  assumes "state g = Drilling" and "hit_test dt g = None"
    and "\<not> (snd (next_tip dt g) \<le> MAX_DEPTH_WORLD \<or> fst (next_tip dt g) > 1100)"
  shows "update dt g =
    g\<lparr>drill_path_length := drill_path_length g + distance (drill_tip g) (next_tip dt g),
      drill_tip := next_tip dt g\<rparr>"
  using assms by (simp add: update_def hit_test_def next_tip_def Let_def distance_def)

lemma update_cases [consumes 0, case_names idle win lose advance]:
  assumes "state g \<noteq> Drilling \<Longrightarrow> P"
    and "\<And>ipt. state g = Drilling \<Longrightarrow> hit_test dt g = Some ipt \<Longrightarrow> P"
    and "state g = Drilling \<Longrightarrow> hit_test dt g = None \<Longrightarrow>
      snd (next_tip dt g) \<le> MAX_DEPTH_WORLD \<or> fst (next_tip dt g) > 1100 \<Longrightarrow> P"
    and "state g = Drilling \<Longrightarrow> hit_test dt g = None \<Longrightarrow>
      \<not> (snd (next_tip dt g) \<le> MAX_DEPTH_WORLD \<or> fst (next_tip dt g) > 1100) \<Longrightarrow> P"
  shows P
  using assms by (cases "hit_test dt g") blast+

lemma quadratic_root:
  fixes a b c s v :: real
  assumes a: "a \<noteq> 0" and s: "s\<^sup>2 = b\<^sup>2 - 4 * a * c"
    and v: "v = (- b - s) / (2 * a) \<or> v = (- b + s) / (2 * a)"
  shows "a * v\<^sup>2 + b * v + c = 0"
proof -
  from a v have "2 * a * v + b = - s \<or> 2 * a * v + b = s"
    by (auto simp: field_simps)
  then have "(2 * a * v + b)\<^sup>2 = s\<^sup>2"
    by auto
  with s have "4 * a * (a * v\<^sup>2 + b * v + c) = 0"
    by (simp add: power2_eq_square algebra_simps)
  with a show ?thesis by simp
qed

lemma along_circle:
  "(fst (along p0 p1 v) - fst c)\<^sup>2 + (snd (along p0 p1 v) - snd c)\<^sup>2 =
     qa p0 p1 * v\<^sup>2 + qb p0 p1 c * v + qc p0 c r + r\<^sup>2"
  by (simp add: along_def qa_def qb_def qc_def power2_eq_square algebra_simps)

lemma in_unit_root_on_circle:
  assumes d: "0 \<le> discriminant p0 p1 c r"
    and v: "in_unit (root1 p0 p1 c r) = Some v \<or> in_unit (root2 p0 p1 c r) = Some v"
  shows "(fst (along p0 p1 v) - fst c)\<^sup>2 + (snd (along p0 p1 v) - snd c)\<^sup>2 = r\<^sup>2"
proof -
  let ?s = "sqrt (discriminant p0 p1 c r)"
  from v have a: "qa p0 p1 \<noteq> 0"
    and r: "v = (- qb p0 p1 c - ?s) / (2 * qa p0 p1) \<or> v = (- qb p0 p1 c + ?s) / (2 * qa p0 p1)"
    by (auto simp: in_unit_Some root1_def root2_def js_div_Num)
  from d have "?s\<^sup>2 = (qb p0 p1 c)\<^sup>2 - 4 * qa p0 p1 * qc p0 c r"
    by (simp add: discriminant_def)
  from quadratic_root [OF a this r] show ?thesis
    by (simp add: along_circle [where r = r])
qed

lemma hit_on_circle:
  assumes "lineCircleIntersection p0 p1 c r = Some p"
  shows "(fst p - fst c)\<^sup>2 + (snd p - snd c)\<^sup>2 = r\<^sup>2"
  using assms in_unit_root_on_circle [of p0 p1 c r]
  by (auto simp: lineCircleIntersection_roots split: if_splits option.splits)

lemma hit_on_segment:
  assumes "lineCircleIntersection p0 p1 c r = Some p"
  shows "\<exists>t. 0 \<le> t \<and> t \<le> 1 \<and> p = along p0 p1 t"
  using assms
  by (auto simp: lineCircleIntersection_roots in_unit_Some split: if_splits option.splits)

lemma point_miss: "lineCircleIntersection p p c r = None"
  by (simp add: lineCircleIntersection_roots discriminant_def qa_def qb_def root1_def
      root2_def js_div_def in_unit_def)

lemma vertical_miss:
  assumes "fst p0 = fst p1" and "r\<^sup>2 < (fst p0 - fst c)\<^sup>2"
  shows "lineCircleIntersection p0 p1 c r = None"
proof (cases "snd p1 = snd p0")
  case True
  with assms(1) have "p1 = p0" by (simp add: prod_eq_iff)
  then show ?thesis by (simp add: point_miss)
next
  case False
  have "discriminant p0 p1 c r = - 4 * (snd p1 - snd p0)\<^sup>2 * ((fst p0 - fst c)\<^sup>2 - r\<^sup>2)"
    using assms(1) by (simp add: discriminant_def qa_def qb_def qc_def power2_eq_square algebra_simps)
  moreover have "0 < (snd p1 - snd p0)\<^sup>2 * ((fst p0 - fst c)\<^sup>2 - r\<^sup>2)"
    using False assms(2) by (intro mult_pos_pos) simp_all
  ultimately have "discriminant p0 p1 c r < 0" by simp
  then show ?thesis by (simp add: lineCircleIntersection_roots)
qed

lemma horizontal_miss:
  assumes "snd p0 = snd p1" and "r\<^sup>2 < (snd p0 - snd c)\<^sup>2"
  shows "lineCircleIntersection p0 p1 c r = None"
proof (cases "fst p1 = fst p0")
  case True
  with assms(1) have "p1 = p0" by (simp add: prod_eq_iff)
  then show ?thesis by (simp add: point_miss)
next
  case False
  have "discriminant p0 p1 c r = - 4 * (fst p1 - fst p0)\<^sup>2 * ((snd p0 - snd c)\<^sup>2 - r\<^sup>2)"
    using assms(1) by (simp add: discriminant_def qa_def qb_def qc_def power2_eq_square algebra_simps)
  moreover have "0 < (fst p1 - fst p0)\<^sup>2 * ((snd p0 - snd c)\<^sup>2 - r\<^sup>2)"
    using False assms(2) by (intro mult_pos_pos) simp_all
  ultimately have "discriminant p0 p1 c r < 0" by simp
  then show ?thesis by (simp add: lineCircleIntersection_roots)
qed


section \<open>The invariant holds in every reachable state\<close>

lemma resetRound_fields:
  "resetRound (u1, u2, u3, u4) g =
     g\<lparr>origin_x := u1 * 800 + 100, target_x := u2 * 650 + 250,
       target_y := - (u3 * 400) - 500, target_radius := u4 * 15 + 5,
       state := Aim, drill_tip := (u1 * 800 + 100, 0), drill_speed_mps := 900,
       result_point := None, tries_remaining := 3, drill_path_length := 0,
       total_cost := 0, accumulated_cost := 0\<rparr>"
  by (simp add: resetRound_def config_defs Let_def)

lemma resetRound_inv:
  assumes "valid_draws rnd" and "ANGLE_MIN \<le> angle g" and "angle g \<le> ANGLE_MAX"
  shows "game_inv (resetRound rnd g)"
proof -
  obtain u1 u2 u3 u4 where rnd: "rnd = (u1, u2, u3, u4)"
    by (cases rnd) auto
  have "round_ok (resetRound rnd g)"
    using assms unfolding rnd resetRound_fields
    by (simp add: round_ok_def valid_draws_def config_defs)
  moreover have "session_ok (resetRound rnd g)"
    unfolding rnd resetRound_fields by (simp add: session_ok_def)
  moreover have "attempt_ok (resetRound rnd g)"
    unfolding rnd resetRound_fields by (simp add: attempt_ok_def)
  ultimately show ?thesis by (simp add: game_inv_def)
qed

lemma new_Game_inv: "valid_draws rnd \<Longrightarrow> game_inv (new_Game rnd)"
  unfolding new_Game_def by (rule resetRound_inv) (simp_all add: config_defs)

lemma startDrill_inv:
  assumes "game_inv g"
  shows "game_inv (startDrill g)"
proof (cases "state g = Aim")
  case False
  with assms show ?thesis by (simp add: startDrill_def)
next
  case True
  have "round_ok (startDrill g)"
    using assms True by (simp add: startDrill_def game_inv_def round_ok_def)
  moreover have "session_ok (startDrill g)"
    using assms True by (simp add: startDrill_def game_inv_def session_ok_def)
  moreover have "attempt_ok (startDrill g)"
    using assms True
    by (simp add: startDrill_def game_inv_def attempt_ok_def round_ok_def getOrigin_def config_defs)
  ultimately show ?thesis by (simp add: game_inv_def)
qed

lemma update_inv:
  assumes inv: "game_inv g"
  shows "game_inv (update dt g)"
proof (cases rule: update_cases [where g = g and dt = dt])
  case idle
  with inv show ?thesis by (simp add: update_idle)
next
  case (win ipt)
  from win(2) have circ:
    "(fst ipt - target_x g)\<^sup>2 + (snd ipt - target_y g)\<^sup>2 = (target_radius g)\<^sup>2"
    using hit_on_circle [of "drill_tip g" "next_tip dt g" "(target_x g, target_y g)" "target_radius g" ipt]
    by (simp add: hit_test_def)
  have len: "0 \<le> drill_path_length g + distance (drill_tip g) ipt"
    using inv distance_nonneg [of "drill_tip g" ipt] by (simp add: game_inv_def session_ok_def)
  have "round_ok (update dt g)"
    using inv unfolding update_win [OF win] by (simp add: game_inv_def round_ok_def)
  moreover have "session_ok (update dt g)"
    using inv len unfolding update_win [OF win]
    by (simp add: game_inv_def session_ok_def DRILL_COST_PER_METER_def)
  moreover have "attempt_ok (update dt g)"
    using circ unfolding update_win [OF win] by (simp add: attempt_ok_def)
  ultimately show ?thesis by (simp add: game_inv_def)
next
  case lose
  have len: "0 \<le> drill_path_length g + distance (drill_tip g) (next_tip dt g)"
    using inv distance_nonneg [of "drill_tip g" "next_tip dt g"]
    by (simp add: game_inv_def session_ok_def)
  have "round_ok (update dt g)"
    using inv unfolding update_lose [OF lose] by (simp add: game_inv_def round_ok_def)
  moreover have "session_ok (update dt g)"
    using inv len lose(1) unfolding update_lose [OF lose]
    by (simp add: game_inv_def session_ok_def DRILL_COST_PER_METER_def)
  moreover have "attempt_ok (update dt g)"
    unfolding update_lose [OF lose] by (simp add: attempt_ok_def)
  ultimately show ?thesis by (simp add: game_inv_def)
next
  case advance
  have len: "0 \<le> drill_path_length g + distance (drill_tip g) (next_tip dt g)"
    using inv distance_nonneg [of "drill_tip g" "next_tip dt g"]
    by (simp add: game_inv_def session_ok_def)
  have "round_ok (update dt g)"
    using inv unfolding update_advance [OF advance] by (simp add: game_inv_def round_ok_def)
  moreover have "session_ok (update dt g)"
    using inv len advance(1) unfolding update_advance [OF advance]
    by (simp add: game_inv_def session_ok_def)
  moreover have "attempt_ok (update dt g)"
    using inv advance unfolding update_advance [OF advance]
    by (simp add: game_inv_def attempt_ok_def)
  ultimately show ?thesis by (simp add: game_inv_def)
qed

lemma resume_inv:
  assumes "game_inv g" and "state g = Lose" and "tries_remaining g > 0"
  shows "game_inv (g\<lparr>state := Aim\<rparr>)"
  using assms by (simp add: game_inv_def round_ok_def session_ok_def attempt_ok_def)

lemma drillBtn_click_inv: "game_inv g \<Longrightarrow> game_inv (drillBtn_click g)"
  by (simp add: drillBtn_click_def startDrill_inv resume_inv)

lemma game_inv_angle: "game_inv g \<Longrightarrow> ANGLE_MIN \<le> angle g \<and> angle g \<le> ANGLE_MAX"
  by (simp add: game_inv_def round_ok_def)

lemma newRoundBtn_click_inv:
  "game_inv g \<Longrightarrow> valid_draws rnd \<Longrightarrow> game_inv (newRoundBtn_click rnd g)"
  by (simp add: newRoundBtn_click_def resetRound_inv game_inv_angle)

lemma clamp_range: "a \<le> b \<Longrightarrow> a \<le> clamp v a b \<and> clamp v a b \<le> b"
  by (simp add: clamp_def)

lemma turn_inv:
  assumes "game_inv g" and "state g = Aim"
  shows "game_inv (g\<lparr>angle := clamp v ANGLE_MIN ANGLE_MAX\<rparr>)"
  using assms clamp_range [of ANGLE_MIN ANGLE_MAX v]
  by (simp add: game_inv_def round_ok_def session_ok_def attempt_ok_def config_defs)

lemma keydown_inv:
  assumes "game_inv g" and "valid_draws rnd"
  shows "game_inv (keydown k rnd g)"
proof (cases k)
  case Space
  with assms show ?thesis by (simp add: keydown_def startDrill_inv resume_inv)
next
  case KeyN
  with assms show ?thesis by (simp add: keydown_def resetRound_inv game_inv_angle)
qed (use assms in \<open>simp_all add: keydown_def turn_inv\<close>)

lemma handle_inv: "game_inv g \<Longrightarrow> event_draws_ok e \<Longrightarrow> game_inv (handle e g)"
  by (cases e)
    (simp_all add: update_inv drillBtn_click_inv newRoundBtn_click_inv keydown_inv)

lemma reachable_inv: "reachable g \<Longrightarrow> game_inv g"
  by (induction rule: reachable.induct) (simp_all add: new_Game_inv handle_inv)


section \<open>Concrete games\<close>

lemma mid_game_fields:
  "mid_game =
     \<lparr>angle = - 90, origin_x = 500, target_x = 575, target_y = - 700, target_radius = 25 / 2,
      state = Aim, drill_tip = (500, 0), drill_speed_mps = 900, result_point = None,
      tries_remaining = 3, drill_path_length = 0, total_cost = 0, accumulated_cost = 0\<rparr>"
  by (simp add: mid_game_def mid_draws_def new_Game_def resetRound_fields ANGLE_DEFAULT_def)

lemma plumb_game_fields:
  "plumb_game =
     \<lparr>angle = - 90, origin_x = 500, target_x = 500, target_y = - 600, target_radius = 10,
      state = Aim, drill_tip = (500, 0), drill_speed_mps = 900, result_point = None,
      tries_remaining = 3, drill_path_length = 0, total_cost = 0, accumulated_cost = 0\<rparr>"
  by (simp add: plumb_game_def plumb_draws_def new_Game_def resetRound_fields ANGLE_DEFAULT_def)

lemma reachable_mid_game: "reachable mid_game"
  unfolding mid_game_def by (rule reachable.fresh) (simp add: valid_draws_def mid_draws_def)

lemma reachable_plumb_game: "reachable plumb_game"
  unfolding plumb_game_def by (rule reachable.fresh) (simp add: valid_draws_def plumb_draws_def)

lemma heading_down: "cos (deg2rad (- 90)) = 0" "sin (deg2rad (- 90)) = - 1"
proof -
  have "deg2rad (- 90) = - (pi / 2)" by (simp add: deg2rad_def)
  then show "cos (deg2rad (- 90)) = 0" "sin (deg2rad (- 90)) = - 1" by simp_all
qed

lemma next_tip_down:
  assumes "angle g = - 90" and "drill_speed_mps g = 900"
  shows "next_tip dt g = (fst (drill_tip g), snd (drill_tip g) - 900 * dt)"
  using assms by (simp add: next_tip_def heading_down)

lemma startDrill_mid_game:
  "startDrill mid_game =
     \<lparr>angle = - 90, origin_x = 500, target_x = 575, target_y = - 700, target_radius = 25 / 2,
      state = Drilling, drill_tip = (500, 0), drill_speed_mps = 900, result_point = None,
      tries_remaining = 3, drill_path_length = 0, total_cost = 0, accumulated_cost = 0\<rparr>"
  by (simp add: mid_game_fields startDrill_def getOrigin_def SURFACE_Y_WORLD_def)

lemma startDrill_plumb_game:
  "startDrill plumb_game =
     \<lparr>angle = - 90, origin_x = 500, target_x = 500, target_y = - 600, target_radius = 10,
      state = Drilling, drill_tip = (500, 0), drill_speed_mps = 900, result_point = None,
      tries_remaining = 3, drill_path_length = 0, total_cost = 0, accumulated_cost = 0\<rparr>"
  by (simp add: plumb_game_fields startDrill_def getOrigin_def SURFACE_Y_WORLD_def)

text \<open>Drilling straight down from the mid game misses the target, which lies to the right.\<close>

lemma mid_game_miss: "hit_test dt (startDrill mid_game) = None"
  unfolding hit_test_def
  by (rule vertical_miss) (simp_all add: startDrill_mid_game next_tip_down power2_eq_square)

lemma distance_vertical: "distance (x, y) (x, y') = \<bar>y' - y\<bar>"
  by (simp add: distance_def)

lemma mid_game_lost:
  assumes "1 \<le> dt"
  shows "update dt (startDrill mid_game) =
     \<lparr>angle = - 90, origin_x = 500, target_x = 575, target_y = - 700, target_radius = 25 / 2,
      state = Lose, drill_tip = (500, - (900 * dt)), drill_speed_mps = 900, result_point = None,
      tries_remaining = 2, drill_path_length = 900 * dt, total_cost = 270000 * dt,
      accumulated_cost = 270000 * dt\<rparr>"
proof -
  have nt: "next_tip dt (startDrill mid_game) = (500, - (900 * dt))"
    by (simp add: next_tip_down startDrill_mid_game)
  have st: "state (startDrill mid_game) = Drilling"
    by (simp add: startDrill_mid_game)
  have out: "snd (next_tip dt (startDrill mid_game)) \<le> MAX_DEPTH_WORLD \<or>
      fst (next_tip dt (startDrill mid_game)) > 1100"
    using assms by (simp add: nt MAX_DEPTH_WORLD_def)
  show ?thesis
    using assms unfolding update_lose [OF st mid_game_miss out] nt
    by (simp add: startDrill_mid_game distance_vertical DRILL_COST_PER_METER_def)
qed

lemma sqrt_18000: "sqrt 324000000 = 18000"
  by (rule real_sqrt_unique) simp_all

text \<open>
  Drilling straight down from the plumb game for one second: the segment from \<open>(500, 0)\<close>
  to \<open>(500, -900)\<close> enters the target circle at \<open>(500, -590)\<close>.
\<close>

lemma plumb_game_hit: "hit_test 1 (startDrill plumb_game) = Some (500, - 590)"
proof -
  have d: "discriminant (500, 0) (500, - 900) (500, - 600) 10 = 324000000"
    by (simp add: discriminant_def qa_def qb_def qc_def)
  have "in_unit (root1 (500, 0) (500, - 900) (500, - 600) 10) = Some (59 / 90)"
    by (simp add: root1_def d sqrt_18000 qa_def qb_def js_div_def in_unit_def)
  then have "lineCircleIntersection (500, 0) (500, - 900) (500, - 600) 10 = Some (500, - 590)"
    by (simp add: lineCircleIntersection_roots d along_def)
  then show ?thesis
    by (simp add: hit_test_def next_tip_down startDrill_plumb_game)
qed

lemma plumb_game_won:
  "update 1 (startDrill plumb_game) =
     \<lparr>angle = - 90, origin_x = 500, target_x = 500, target_y = - 600, target_radius = 10,
      state = Win, drill_tip = (500, - 590), drill_speed_mps = 900,
      result_point = Some (500, - 590),
      tries_remaining = 3, drill_path_length = 590, total_cost = 177000,
      accumulated_cost = 177000\<rparr>"
proof -
  have "state (startDrill plumb_game) = Drilling" by (simp add: startDrill_plumb_game)
  from update_win [OF this plumb_game_hit] show ?thesis
    by (simp add: startDrill_plumb_game distance_vertical DRILL_COST_PER_METER_def)
qed

section \<open>Tries remaining\<close>

lemma handle_tries:
  "tries_remaining (handle e g) =
     (if resets e g then 3
      else if state g \<noteq> Lose \<and> state (handle e g) = Lose then tries_remaining g - 1
      else tries_remaining g)"
proof (cases e)
  case (Tick dt)
  show ?thesis
  proof (cases rule: update_cases [where g = g and dt = dt])
    case idle
    then show ?thesis by (simp add: Tick update_idle)
  next
    case (win ipt)
    then show ?thesis by (simp add: Tick update_win)
  next
    case lose
    then show ?thesis by (simp add: Tick update_lose)
  next
    case advance
    then show ?thesis by (simp add: Tick update_advance)
  qed
next
  case DrillClick
  then show ?thesis
    by (cases "state g") (simp_all add: drillBtn_click_def startDrill_def)
next
  case (NewRoundClick rnd)
  then show ?thesis
    by (cases rnd; cases "state g") (simp_all add: newRoundBtn_click_def resetRound_fields)
next
  case (KeyDown k rnd)
  then show ?thesis
    by (cases rnd; cases k; cases "state g")
      (simp_all add: keydown_def startDrill_def resetRound_fields)
qed

lemma resume_needs_tries:
  assumes "state g = Lose" and "state (handle e g) = Aim" and "\<not> resets e g"
  shows "0 < tries_remaining g"
proof (cases e)
  case (Tick dt)
  with assms show ?thesis by (simp add: update_idle)
next
  case DrillClick
  with assms show ?thesis by (simp add: drillBtn_click_def split: if_splits)
next
  case (NewRoundClick rnd)
  with assms show ?thesis by simp
next
  case (KeyDown k rnd)
  with assms show ?thesis by (cases k) (simp_all add: keydown_def split: if_splits)
qed

text \<open>
  C2. In every reachable state the tries remaining are not negative. They are 3 in a
  fresh game; an event that calls \<open>resetRound\<close> sets them to 3, an event that takes the
  game into the lose state takes exactly 1 off, and every other event (a win among them)
  leaves them as they are. Aiming is resumed from a loss only with tries remaining, and
  \<open>update\<close> changes them only in the drilling state.
\<close>

theorem tries_remaining_discipline:
  assumes "reachable g"
  shows "tries_remaining (new_Game rnd) = 3 \<and>
    0 \<le> tries_remaining g \<and>
    tries_remaining (handle e g) =
      (if resets e g then 3
       else if state g \<noteq> Lose \<and> state (handle e g) = Lose then tries_remaining g - 1
       else tries_remaining g) \<and>
    (state g = Lose \<and> state (handle e g) = Aim \<and> \<not> resets e g \<longrightarrow> 0 < tries_remaining g) \<and>
    (tries_remaining (update dt g) \<noteq> tries_remaining g \<longrightarrow> state g = Drilling)"
proof -
  have "tries_remaining (new_Game rnd) = 3"
    by (cases rnd) (simp add: new_Game_def resetRound_fields)
  moreover have "0 \<le> tries_remaining g"
    using reachable_inv [OF assms] by (simp add: game_inv_def session_ok_def)
  moreover have "tries_remaining (update dt g) \<noteq> tries_remaining g \<longrightarrow> state g = Drilling"
    by (cases "state g = Drilling") (simp_all add: update_idle)
  ultimately show ?thesis
    using handle_tries [of e g] resume_needs_tries [of g e] by blast
qed

theorem tries_remaining_discipline_witness:
  "reachable (startDrill mid_game) \<and>
   tries_remaining (startDrill mid_game) = 3 \<and>
   state (handle (Tick 1) (startDrill mid_game)) = Lose \<and>
   tries_remaining (handle (Tick 1) (startDrill mid_game)) = 2"
proof -
  have r: "reachable (startDrill mid_game)"
    using reachable.after [OF reachable_mid_game, of DrillClick]
    by (simp add: drillBtn_click_def mid_game_fields)
  have "state (handle (Tick 1) (startDrill mid_game)) = Lose"
    using mid_game_lost [of 1] by simp
  then show ?thesis
    using r tries_remaining_discipline [OF r, of mid_draws "Tick 1" 1]
    by (simp add: startDrill_mid_game)
qed

section \<open>Accumulated cost\<close>

lemma handle_accumulated_cost:
  "accumulated_cost (handle e g) =
     (if resets e g then 0
      else if completes e g
        then accumulated_cost g + drill_path_length (handle e g) * DRILL_COST_PER_METER
      else accumulated_cost g)"
proof (cases e)
  case (Tick dt)
  show ?thesis
  proof (cases rule: update_cases [where g = g and dt = dt])
    case idle
    then show ?thesis by (simp add: Tick update_idle completes_def)
  next
    case (win ipt)
    then show ?thesis by (simp add: Tick update_win completes_def)
  next
    case lose
    then show ?thesis by (simp add: Tick update_lose completes_def)
  next
    case advance
    then show ?thesis by (simp add: Tick update_advance completes_def)
  qed
next
  case DrillClick
  then show ?thesis
    by (cases "state g") (simp_all add: drillBtn_click_def startDrill_def completes_def)
next
  case (NewRoundClick rnd)
  then show ?thesis
    by (cases rnd; cases "state g")
      (simp_all add: newRoundBtn_click_def resetRound_fields completes_def)
next
  case (KeyDown k rnd)
  then show ?thesis
    by (cases rnd; cases k; cases "state g")
      (simp_all add: keydown_def startDrill_def resetRound_fields completes_def)
qed

lemma run_accumulated_cost:
  assumes "accumulated_cost g = (\<Sum>len\<leftarrow>ended. len * DRILL_COST_PER_METER)"
  shows "accumulated_cost (run es g) =
    (\<Sum>len\<leftarrow>attempt_lengths es g ended. len * DRILL_COST_PER_METER)"
  using assms
proof (induction es arbitrary: g ended)
  case Nil
  then show ?case by simp
next
  case (Cons e es)
  show ?case
    unfolding run.simps attempt_lengths.simps
    by (rule Cons.IH) (simp add: handle_accumulated_cost Cons.prems)
qed

lemma handle_path_nonneg:
  assumes "game_inv g" and "event_draws_ok e"
  shows "0 \<le> drill_path_length (handle e g)"
  using handle_inv [OF assms] by (simp add: game_inv_def session_ok_def)

text \<open>
  C3. Along every sequence of events from a fresh game, the accumulated cost is the sum,
  over the attempts completed (won or lost) since the last \<open>resetRound\<close>, of the attempt's
  final path length times the cost per metre. \<open>resetRound\<close> sets it to 0; the event that
  completes an attempt adds that attempt's cost to it, once; no other event changes it,
  and in a reachable state nothing but \<open>resetRound\<close> lowers it.
\<close>

theorem accumulated_cost_is_sum:
  "accumulated_cost (run es (new_Game rnd)) =
     (\<Sum>len\<leftarrow>attempt_lengths es (new_Game rnd) []. len * DRILL_COST_PER_METER) \<and>
   accumulated_cost (resetRound rnd g) = 0 \<and>
   accumulated_cost (handle e g) =
     (if resets e g then 0
      else if completes e g
        then accumulated_cost g + drill_path_length (handle e g) * DRILL_COST_PER_METER
      else accumulated_cost g) \<and>
   (reachable g \<and> event_draws_ok e \<and> \<not> resets e g \<longrightarrow>
      accumulated_cost g \<le> accumulated_cost (handle e g))"
proof -
  have zero: "accumulated_cost (resetRound r h) = 0" for r h
    by (cases r) (simp add: resetRound_fields)
  have "accumulated_cost (run es (new_Game rnd)) =
     (\<Sum>len\<leftarrow>attempt_lengths es (new_Game rnd) []. len * DRILL_COST_PER_METER)"
    by (rule run_accumulated_cost) (simp add: new_Game_def zero)
  moreover have "accumulated_cost g \<le> accumulated_cost (handle e g)"
    if "reachable g" and "event_draws_ok e" and "\<not> resets e g"
    using handle_path_nonneg [OF reachable_inv [OF that(1)] that(2)] that(3)
    by (simp add: handle_accumulated_cost DRILL_COST_PER_METER_def)
  ultimately show ?thesis
    by (simp add: zero handle_accumulated_cost)
qed

theorem accumulated_cost_is_sum_witness:
  "attempt_lengths [DrillClick, Tick 1] plumb_game [] = [590] \<and>
   accumulated_cost (run [DrillClick, Tick 1] plumb_game) = 177000 \<and>
   accumulated_cost plumb_game \<le> accumulated_cost (handle DrillClick plumb_game)"
proof -
  have s: "drillBtn_click plumb_game = startDrill plumb_game"
    by (simp add: drillBtn_click_def plumb_game_fields)
  have c: "\<not> completes DrillClick plumb_game" "completes (Tick 1) (startDrill plumb_game)"
    by (simp add: completes_def plumb_game_fields)
      (simp add: completes_def plumb_game_won, simp add: startDrill_plumb_game)
  have l: "attempt_lengths [DrillClick, Tick 1] plumb_game [] = [590]"
    using c by (simp add: s) (simp add: plumb_game_won)
  show ?thesis
    using accumulated_cost_is_sum
        [where es = "[DrillClick, Tick 1]" and rnd = plumb_draws and g = plumb_game and e = DrillClick]
      reachable_plumb_game
    unfolding plumb_game_def [symmetric] l
    by (simp add: DRILL_COST_PER_METER_def)
qed

section \<open>A new round\<close>

text \<open>
  C5, as stated, has \<open>resetRound\<close> reset the whole attempt state, the current angle
  included. It does not touch the angle: after one press of the right arrow in a fresh
  game and a new round, the angle is still \<open>-89\<close>, not the \<open>-90\<close> of a fresh game.
\<close>

theorem resetRound_angle_counterexample:
  "angle mid_game = - 90 \<and>
   angle (run [KeyDown ArrowRight mid_draws, KeyDown KeyN mid_draws] mid_game) = - 89 \<and>
   angle (run [KeyDown ArrowRight mid_draws, KeyDown KeyN mid_draws] mid_game) \<noteq>
     angle (new_Game mid_draws)"
  by (simp add: mid_game_def [symmetric] mid_game_fields keydown_def clamp_def config_defs)
    (simp add: mid_draws_def resetRound_fields)

text \<open>
  C5, amended. Whatever the prior state, \<open>resetRound\<close> gives the round state (origin,
  target position and radius) the values of the new draws, sets the tries remaining to 3
  and the accumulated and last-attempt costs to 0, puts the drill tip on the new origin at
  the surface, the path length to 0, the result point to absent and the state tag to aim.
  Nothing of the prior state survives but the current angle, which is left as it was.
\<close>

theorem resetRound_replaces_all_but_angle:
  "resetRound (u1, u2, u3, u4) g =
     \<lparr>angle = angle g,
      origin_x = u1 * (ORIGIN_X_MAX - ORIGIN_X_MIN) + ORIGIN_X_MIN,
      target_x = u2 * (TARGET_X_MAX - TARGET_X_MIN) + TARGET_X_MIN,
      target_y = u3 * (TARGET_Y_MAX - TARGET_Y_MIN) + TARGET_Y_MIN,
      target_radius = u4 * (TARGET_RADIUS_MAX - TARGET_RADIUS_MIN) + TARGET_RADIUS_MIN,
      state = Aim,
      drill_tip = (u1 * (ORIGIN_X_MAX - ORIGIN_X_MIN) + ORIGIN_X_MIN, SURFACE_Y_WORLD),
      drill_speed_mps = 900,
      result_point = None,
      tries_remaining = 3,
      drill_path_length = 0,
      total_cost = 0,
      accumulated_cost = 0\<rparr>"
  by (cases g) (simp add: resetRound_def Let_def)

theorem resetRound_replaces_all_but_angle_witness:
  "resetRound (1 / 2, 1 / 2, 1 / 2, 1 / 2) (update 1 (startDrill plumb_game)) =
     \<lparr>angle = - 90, origin_x = 500, target_x = 575, target_y = - 700, target_radius = 25 / 2,
      state = Aim, drill_tip = (500, 0), drill_speed_mps = 900, result_point = None,
      tries_remaining = 3, drill_path_length = 0, total_cost = 0, accumulated_cost = 0\<rparr>"
  using resetRound_replaces_all_but_angle
      [of "1 / 2" "1 / 2" "1 / 2" "1 / 2" "update 1 (startDrill plumb_game)"]
  by (simp add: plumb_game_won config_defs)

section \<open>Leaving the world\<close>

text \<open>
  C7. A step of an attempt under way that detects no hit and whose endpoint is at or
  below the maximum depth, or beyond the lateral bound, ends the attempt as a loss at that
  endpoint: the tip is the stepped endpoint, the path length has grown by the whole step,
  and the cost of the loss is that path length times the cost per metre. Only a step that
  detects a hit ends at the exact point found, which lies on the target circle.
\<close>

theorem boundary_exit_at_stepped_endpoint:
  assumes "state g = Drilling"
  shows "(hit_test dt g = None \<and>
       (snd (next_tip dt g) \<le> MAX_DEPTH_WORLD \<or> fst (next_tip dt g) > 1100) \<longrightarrow>
     state (update dt g) = Lose \<and>
     drill_tip (update dt g) = next_tip dt g \<and>
     drill_path_length (update dt g) =
       drill_path_length g + distance (drill_tip g) (next_tip dt g) \<and>
     total_cost (update dt g) = drill_path_length (update dt g) * DRILL_COST_PER_METER \<and>
     accumulated_cost (update dt g) = accumulated_cost g + total_cost (update dt g)) \<and>
    (hit_test dt g = Some p \<longrightarrow>
     state (update dt g) = Win \<and> drill_tip (update dt g) = p \<and>
     (fst p - target_x g)\<^sup>2 + (snd p - target_y g)\<^sup>2 = (target_radius g)\<^sup>2)"
proof -
  have "(fst p - target_x g)\<^sup>2 + (snd p - target_y g)\<^sup>2 = (target_radius g)\<^sup>2"
    if "hit_test dt g = Some p"
    using hit_on_circle [of "drill_tip g" "next_tip dt g" "(target_x g, target_y g)"
        "target_radius g" p] that
    by (simp add: hit_test_def)
  then show ?thesis
    using assms by (simp add: update_lose update_win)
qed

theorem boundary_exit_at_stepped_endpoint_witness:
  "state (startDrill mid_game) = Drilling \<and>
   hit_test 2 (startDrill mid_game) = None \<and>
   next_tip 2 (startDrill mid_game) = (500, - 1800) \<and>
   state (update 2 (startDrill mid_game)) = Lose \<and>
   drill_tip (update 2 (startDrill mid_game)) = (500, - 1800) \<and>
   total_cost (update 2 (startDrill mid_game)) = 540000"
proof -
  have st: "state (startDrill mid_game) = Drilling"
    by (simp add: startDrill_mid_game)
  have nt: "next_tip 2 (startDrill mid_game) = (500, - 1800)"
    by (simp add: next_tip_down startDrill_mid_game)
  have d: "distance (500, 0) (500, - 1800) = 1800"
    by (simp add: distance_vertical)
  have f: "drill_tip (startDrill mid_game) = (500, 0)" "drill_path_length (startDrill mid_game) = 0"
    by (simp_all add: startDrill_mid_game)
  show ?thesis
    using boundary_exit_at_stepped_endpoint [OF st, of 2] mid_game_miss [of 2]
    by (simp add: st nt f d MAX_DEPTH_WORLD_def DRILL_COST_PER_METER_def)
qed

section \<open>Commands outside their state\<close>

text \<open>
  C8. A command issued outside its valid state leaves the whole game as it is:
  \<open>startDrill\<close> and the arrow keys outside aim; the drill button and the space bar in a
  loss with no tries remaining (no return to aim), in a win and while drilling; the new
  round button and key while drilling; \<open>update\<close> outside drilling.
\<close>

theorem invalid_commands_are_no_ops:
  "(state g \<noteq> Aim \<longrightarrow>
      startDrill g = g \<and> keydown ArrowLeft rnd g = g \<and> keydown ArrowRight rnd g = g) \<and>
   (state g = Lose \<and> tries_remaining g \<le> 0 \<longrightarrow>
      drillBtn_click g = g \<and> keydown Space rnd g = g) \<and>
   (state g = Win \<or> state g = Drilling \<longrightarrow>
      drillBtn_click g = g \<and> keydown Space rnd g = g) \<and>
   (state g = Drilling \<longrightarrow> newRoundBtn_click rnd g = g \<and> keydown KeyN rnd g = g) \<and>
   (state g \<noteq> Drilling \<longrightarrow> update dt g = g)"
  by (auto simp: startDrill_def keydown_def drillBtn_click_def newRoundBtn_click_def
      update_idle)

theorem invalid_commands_are_no_ops_witness:
  "keydown ArrowLeft mid_draws (mid_game\<lparr>state := Lose, tries_remaining := 0\<rparr>) =
     mid_game\<lparr>state := Lose, tries_remaining := 0\<rparr> \<and>
   keydown Space mid_draws (mid_game\<lparr>state := Lose, tries_remaining := 0\<rparr>) =
     mid_game\<lparr>state := Lose, tries_remaining := 0\<rparr> \<and>
   drillBtn_click (mid_game\<lparr>state := Lose, tries_remaining := 0\<rparr>) =
     mid_game\<lparr>state := Lose, tries_remaining := 0\<rparr> \<and>
   update 1 (mid_game\<lparr>state := Lose, tries_remaining := 0\<rparr>) =
     mid_game\<lparr>state := Lose, tries_remaining := 0\<rparr> \<and>
   keydown KeyN mid_draws (startDrill mid_game) = startDrill mid_game \<and>
   keydown Space mid_draws (startDrill mid_game) = startDrill mid_game"
proof -
  have "state (startDrill mid_game) = Drilling"
    by (simp add: startDrill_mid_game)
  then show ?thesis
    using invalid_commands_are_no_ops
        [of "mid_game\<lparr>state := Lose, tries_remaining := 0\<rparr>" mid_draws 1]
      invalid_commands_are_no_ops [of "startDrill mid_game" mid_draws 1]
    by simp
qed

section \<open>The result point\<close>

text \<open>
  C9. In every reachable state the result point is present exactly when the state is a
  win; in a win it is the drill tip, and its distance from the target centre is the
  target radius.
\<close>

theorem result_point_iff_win:
  assumes "reachable g"
  shows "(result_point g \<noteq> None \<longleftrightarrow> state g = Win) \<and>
    (state g = Win \<longrightarrow>
       result_point g = Some (drill_tip g) \<and>
       distance (target_x g, target_y g) (drill_tip g) = target_radius g)"
proof -
  from reachable_inv [OF assms]
  have a: "attempt_ok g" and r: "0 \<le> target_radius g"
    by (simp_all add: game_inv_def round_ok_def config_defs)
  have "distance (target_x g, target_y g) (drill_tip g) = target_radius g" if "state g = Win"
  proof -
    from a that
    have "(fst (drill_tip g) - target_x g)\<^sup>2 + (snd (drill_tip g) - target_y g)\<^sup>2 =
        (target_radius g)\<^sup>2"
      by (simp add: attempt_ok_def)
    then have "distance (target_x g, target_y g) (drill_tip g) = sqrt ((target_radius g)\<^sup>2)"
      by (simp add: distance_def power2_eq_square)
    with r show ?thesis by simp
  qed
  with a show ?thesis by (simp add: attempt_ok_def)
qed

theorem result_point_iff_win_witness:
  "reachable (update 1 (startDrill plumb_game)) \<and>
   state (update 1 (startDrill plumb_game)) = Win \<and>
   result_point (update 1 (startDrill plumb_game)) = Some (500, - 590) \<and>
   distance (500, - 600) (500, - 590) = 10"
proof -
  have "reachable (handle DrillClick plumb_game)"
    by (rule reachable.after [OF reachable_plumb_game]) simp
  then have "reachable (handle (Tick 1) (handle DrillClick plumb_game))"
    by (rule reachable.after) simp
  moreover have "handle DrillClick plumb_game = startDrill plumb_game"
    by (simp add: drillBtn_click_def plumb_game_fields)
  ultimately have r: "reachable (update 1 (startDrill plumb_game))"
    by simp
  show ?thesis
    using r result_point_iff_win [OF r] by (simp add: plumb_game_won)
qed

section \<open>A segment of length zero\<close>

text \<open>
  C10. For a segment of length zero the coefficient \<open>a\<close> is 0 and both roots are the
  quotient \<open>0 / 0\<close>, which is NaN and fails the test, so the routine reports no hit
  wherever the point lies. An \<open>update\<close> with \<open>dt = 0\<close> in a reachable drilling state
  therefore changes nothing.
\<close>

theorem zero_length_segment_no_hit:
  "qa p p = 0 \<and> root1 p p c r = NaN \<and> root2 p p c r = NaN \<and> in_unit NaN = None \<and>
   lineCircleIntersection p p c r = None \<and>
   (reachable g \<and> state g = Drilling \<longrightarrow> update 0 g = g)"
proof -
  have "update 0 g = g" if r: "reachable g" and d: "state g = Drilling"
  proof -
    have nt: "next_tip 0 g = drill_tip g"
      by (simp add: next_tip_def)
    have miss: "hit_test 0 g = None"
      by (simp add: hit_test_def nt point_miss)
    from reachable_inv [OF r] d
    have "\<not> (snd (next_tip 0 g) \<le> MAX_DEPTH_WORLD \<or> fst (next_tip 0 g) > 1100)"
      by (simp add: nt game_inv_def attempt_ok_def)
    from update_advance [OF d miss this] show ?thesis
      by (simp add: nt distance_same)
  qed
  then show ?thesis
    by (simp add: point_miss qa_def qb_def discriminant_def root1_def root2_def js_div_def
        in_unit_def)
qed

theorem zero_length_segment_no_hit_witness:
  "distance (0, 0) (0, 0) < 1 \<and>
   lineCircleIntersection (0, 0) (0, 0) (0, 0) 1 = None \<and>
   state (startDrill plumb_game) = Drilling \<and>
   update 0 (startDrill plumb_game) = startDrill plumb_game"
proof -
  have r: "reachable (startDrill plumb_game)"
    using reachable.after [OF reachable_plumb_game, of DrillClick]
    by (simp add: drillBtn_click_def plumb_game_fields)
  have s: "state (startDrill plumb_game) = Drilling"
    by (simp add: startDrill_plumb_game)
  show ?thesis
    using zero_length_segment_no_hit [of "(0, 0)" "(0, 0)" 1 "startDrill plumb_game"] r s
    by (simp add: distance_same)
qed

section \<open>Path length\<close>

lemma update_path_length:
  "drill_path_length (update dt g) =
     drill_path_length g + distance (drill_tip g) (drill_tip (update dt g))"
proof (cases rule: update_cases [where g = g and dt = dt])
  case idle
  then show ?thesis by (simp add: update_idle distance_same)
next
  case (win ipt)
  then show ?thesis by (simp add: update_win)
next
  case lose
  then show ?thesis by (simp add: update_lose)
next
  case advance
  then show ?thesis by (simp add: update_advance)
qed

lemma tips_head: "\<exists>ps. tips dts g = drill_tip g # ps"
  by (cases dts) simp_all

lemma updates_path_length:
  "drill_path_length (updates dts g) = drill_path_length g + polyline_length (tips dts g)"
proof (induction dts arbitrary: g)
  case Nil
  show ?case by simp
next
  case (Cons dt dts)
  obtain ps where ps: "tips dts (update dt g) = drill_tip (update dt g) # ps"
    using tips_head by blast
  have "drill_path_length (updates (dt # dts) g) =
      drill_path_length (update dt g) + polyline_length (tips dts (update dt g))"
    by (simp add: Cons.IH)
  also have "\<dots> = drill_path_length g + distance (drill_tip g) (drill_tip (update dt g)) +
      polyline_length (tips dts (update dt g))"
    by (simp add: update_path_length)
  also have "\<dots> = drill_path_length g + polyline_length (tips (dt # dts) g)"
    by (simp add: ps)
  finally show ?case .
qed

lemma updates_append: "updates (dts @ dts') g = updates dts' (updates dts g)"
  by (induction dts arbitrary: g) simp_all

text \<open>
  C6. Whatever the angle and the time deltas of the \<open>update\<close> calls of one attempt: the
  path length is the sum of the Euclidean lengths of the segments between the consecutive
  positions of the tip, the last of which ends at the exact intersection point when the
  attempt is won; and no \<open>update\<close> makes it smaller.
\<close>

theorem path_length_is_polyline:
  assumes "state g = Aim"
  shows "drill_path_length (updates dts (startDrill g)) =
      polyline_length (tips dts (startDrill g)) \<and>
    drill_path_length (updates dts (startDrill g)) \<le>
      drill_path_length (updates (dts @ [dt]) (startDrill g))"
proof -
  have "drill_path_length (startDrill g) = 0"
    using assms by (simp add: startDrill_def)
  then have "drill_path_length (updates dts (startDrill g)) =
      polyline_length (tips dts (startDrill g))"
    by (simp add: updates_path_length)
  moreover have "drill_path_length (updates dts (startDrill g)) \<le>
      drill_path_length (updates (dts @ [dt]) (startDrill g))"
    by (simp add: updates_append update_path_length distance_nonneg)
  ultimately show ?thesis by simp
qed

lemma sqrt_9000: "sqrt 81000000 = 9000"
  by (rule real_sqrt_unique) simp_all

text \<open>
  Drilling straight down from the plumb game in two frames of half a second: the first
  stops short of the target at \<open>(500, -450)\<close>, the second enters it at \<open>(500, -590)\<close>.
\<close>

lemma plumb_game_half:
  "update (1 / 2) (startDrill plumb_game) =
     \<lparr>angle = - 90, origin_x = 500, target_x = 500, target_y = - 600, target_radius = 10,
      state = Drilling, drill_tip = (500, - 450), drill_speed_mps = 900, result_point = None,
      tries_remaining = 3, drill_path_length = 450, total_cost = 0, accumulated_cost = 0\<rparr>"
proof -
  have st: "state (startDrill plumb_game) = Drilling"
    by (simp add: startDrill_plumb_game)
  have nt: "next_tip (1 / 2) (startDrill plumb_game) = (500, - 450)"
    by (simp add: next_tip_down startDrill_plumb_game)
  have d: "discriminant (500, 0) (500, - 450) (500, - 600) 10 = 81000000"
    by (simp add: discriminant_def qa_def qb_def qc_def)
  have "in_unit (root1 (500, 0) (500, - 450) (500, - 600) 10) = None"
      "in_unit (root2 (500, 0) (500, - 450) (500, - 600) 10) = None"
    by (simp_all add: root1_def root2_def d sqrt_9000 qa_def qb_def js_div_def in_unit_def)
  then have "lineCircleIntersection (500, 0) (500, - 450) (500, - 600) 10 = None"
    by (simp add: lineCircleIntersection_roots d)
  then have miss: "hit_test (1 / 2) (startDrill plumb_game) = None"
    unfolding hit_test_def nt by (simp add: startDrill_plumb_game)
  have inside: "\<not> (snd (next_tip (1 / 2) (startDrill plumb_game)) \<le> MAX_DEPTH_WORLD \<or>
      fst (next_tip (1 / 2) (startDrill plumb_game)) > 1100)"
    by (simp add: nt MAX_DEPTH_WORLD_def)
  show ?thesis
    unfolding update_advance [OF st miss inside] nt
    by (simp add: startDrill_plumb_game distance_vertical)
qed

lemma plumb_game_half_half:
  "update (1 / 2) (update (1 / 2) (startDrill plumb_game)) =
     \<lparr>angle = - 90, origin_x = 500, target_x = 500, target_y = - 600, target_radius = 10,
      state = Win, drill_tip = (500, - 590), drill_speed_mps = 900,
      result_point = Some (500, - 590),
      tries_remaining = 3, drill_path_length = 590, total_cost = 177000,
      accumulated_cost = 177000\<rparr>"
proof -
  let ?s = "update (1 / 2) (startDrill plumb_game)"
  have st: "state ?s = Drilling"
    by (simp add: plumb_game_half)
  have nt: "next_tip (1 / 2) ?s = (500, - 900)"
    by (simp add: next_tip_down plumb_game_half)
  have d: "discriminant (500, - 450) (500, - 900) (500, - 600) 10 = 81000000"
    by (simp add: discriminant_def qa_def qb_def qc_def)
  have "in_unit (root1 (500, - 450) (500, - 900) (500, - 600) 10) = Some (14 / 45)"
    by (simp add: root1_def d sqrt_9000 qa_def qb_def js_div_def in_unit_def)
  then have "lineCircleIntersection (500, - 450) (500, - 900) (500, - 600) 10 =
      Some (500, - 590)"
    by (simp add: lineCircleIntersection_roots d along_def)
  then have hit: "hit_test (1 / 2) ?s = Some (500, - 590)"
    unfolding hit_test_def nt by (simp add: plumb_game_half)
  show ?thesis
    unfolding update_win [OF st hit]
    by (simp add: plumb_game_half distance_vertical DRILL_COST_PER_METER_def)
qed

theorem path_length_is_polyline_witness:
  "state plumb_game = Aim \<and>
   tips [1 / 2, 1 / 2] (startDrill plumb_game) = [(500, 0), (500, - 450), (500, - 590)] \<and>
   polyline_length (tips [1 / 2, 1 / 2] (startDrill plumb_game)) = 590 \<and>
   drill_path_length (updates [1 / 2] (startDrill plumb_game)) \<le>
     drill_path_length (updates ([1 / 2] @ [1 / 2]) (startDrill plumb_game))"
proof -
  have a: "state plumb_game = Aim"
    by (simp add: plumb_game_fields)
  have t: "tips [1 / 2, 1 / 2] (startDrill plumb_game) = [(500, 0), (500, - 450), (500, - 590)]"
    by (simp add: plumb_game_half_half) (simp add: plumb_game_half, simp add: startDrill_plumb_game)
  have p: "drill_path_length (updates [1 / 2, 1 / 2] (startDrill plumb_game)) = 590"
    by (simp add: plumb_game_half_half)
  show ?thesis
    using path_length_is_polyline [OF a, of "[1 / 2, 1 / 2]"]
      path_length_is_polyline [OF a, of "[1 / 2]" "1 / 2"] a t p
    by simp
qed

section \<open>The end of an attempt\<close>

lemma update_leaves_drilling:
  assumes "state (update dt g) = Drilling"
  shows "state g = Drilling \<and> hit_test dt g = None \<and>
    \<not> (snd (next_tip dt g) \<le> MAX_DEPTH_WORLD \<or> fst (next_tip dt g) > 1100)"
proof (cases rule: update_cases [where g = g and dt = dt])
  case idle
  with assms show ?thesis by (simp add: update_idle)
next
  case (win ipt)
  with assms show ?thesis by (simp add: update_win)
next
  case lose
  with assms show ?thesis by (simp add: update_lose)
next
  case advance
  then show ?thesis by simp
qed

lemma update_state_from_drilling:
  assumes "state g = Drilling"
  shows "state (update dt g) = Drilling \<or> state (update dt g) = Win \<or> state (update dt g) = Lose"
proof (cases rule: update_cases [where g = g and dt = dt])
  case idle
  with assms show ?thesis by simp
next
  case (win ipt)
  then show ?thesis by (simp add: update_win)
next
  case lose
  then show ?thesis by (simp add: update_lose)
next
  case advance
  then show ?thesis by (simp add: update_advance)
qed

lemma frames_state:
  assumes "state g = Drilling"
  shows "state (frames dts n g) = Drilling \<or> state (frames dts n g) = Win \<or>
    state (frames dts n g) = Lose"
proof (induction n)
  case 0
  with assms show ?case by simp
next
  case (Suc n)
  show ?case
  proof (cases "state (frames dts n g) = Drilling")
    case True
    then show ?thesis by (simp add: update_state_from_drilling)
  next
    case False
    with Suc show ?thesis by (simp add: update_idle)
  qed
qed

text \<open>
  While the attempt is under way the tip lies on the ray from its start along the
  heading, at the distance the speed covers in the time elapsed, and inside the bounds.
\<close>

lemma frames_drilling_tip:
  assumes "state (frames dts n g) = Drilling"
    and "MAX_DEPTH_WORLD < snd (drill_tip g)" and "fst (drill_tip g) \<le> 1100"
  shows "angle (frames dts n g) = angle g \<and>
    drill_speed_mps (frames dts n g) = drill_speed_mps g \<and>
    drill_tip (frames dts n g) =
      (fst (drill_tip g) + cos (deg2rad (angle g)) * (drill_speed_mps g * (\<Sum>i<n. dts i)),
       snd (drill_tip g) + sin (deg2rad (angle g)) * (drill_speed_mps g * (\<Sum>i<n. dts i))) \<and>
    MAX_DEPTH_WORLD < snd (drill_tip (frames dts n g)) \<and>
    fst (drill_tip (frames dts n g)) \<le> 1100"
  using assms(1)
proof (induction n)
  case 0
  with assms(2,3) show ?case by simp
next
  case (Suc n)
  let ?h = "frames dts n g"
  from Suc.prems have u: "state (update (dts n) ?h) = Drilling"
    by simp
  from update_leaves_drilling [OF u]
  have d: "state ?h = Drilling" and miss: "hit_test (dts n) ?h = None"
    and inside: "\<not> (snd (next_tip (dts n) ?h) \<le> MAX_DEPTH_WORLD \<or>
      fst (next_tip (dts n) ?h) > 1100)"
    by simp_all
  from Suc.IH [OF d]
  have a: "angle ?h = angle g" and s: "drill_speed_mps ?h = drill_speed_mps g"
    and t: "drill_tip ?h =
      (fst (drill_tip g) + cos (deg2rad (angle g)) * (drill_speed_mps g * (\<Sum>i<n. dts i)),
       snd (drill_tip g) + sin (deg2rad (angle g)) * (drill_speed_mps g * (\<Sum>i<n. dts i)))"
    by simp_all
  have nt: "next_tip (dts n) ?h =
      (fst (drill_tip g) + cos (deg2rad (angle g)) * (drill_speed_mps g * (\<Sum>i<Suc n. dts i)),
       snd (drill_tip g) + sin (deg2rad (angle g)) * (drill_speed_mps g * (\<Sum>i<Suc n. dts i)))"
    by (simp add: next_tip_def a s t algebra_simps)
  have step: "frames dts (Suc n) g =
      ?h\<lparr>drill_path_length := drill_path_length ?h + distance (drill_tip ?h) (next_tip (dts n) ?h),
        drill_tip := next_tip (dts n) ?h\<rparr>"
    using update_advance [OF d miss inside] by simp
  have "drill_tip (frames dts (Suc n) g) = next_tip (dts n) ?h"
    unfolding step by simp
  moreover have "angle (frames dts (Suc n) g) = angle g"
    unfolding step by (simp add: a)
  moreover have "drill_speed_mps (frames dts (Suc n) g) = drill_speed_mps g"
    unfolding step by (simp add: s)
  ultimately show ?case
    using inside nt by simp
qed

lemma sin_negative:
  assumes "- 180 < d" and "d < 0"
  shows "sin (deg2rad d) < 0"
proof -
  have x: "d * pi < 0"
    using assms(2) pi_gt_zero by (simp add: mult_neg_pos)
  have "(- d) * pi < 180 * pi"
    using assms(1) pi_gt_zero by (intro mult_strict_right_mono) simp_all
  then have y: "- (d * pi) < 180 * pi"
    by simp
  have "0 < - deg2rad d"
    unfolding deg2rad_def using x by linarith
  moreover have "- deg2rad d < pi"
    unfolding deg2rad_def using y by linarith
  ultimately have "0 < sin (- deg2rad d)"
    by (rule sin_gt_zero)
  then show ?thesis by simp
qed

text \<open>
  In exact arithmetic an attempt at any other angle of the range ends. For every angle
  above \<open>-180\<close> and up to \<open>0\<close>, and every sequence of time deltas whose partial sums grow
  beyond every bound (as they do when the deltas stay above some positive number), the
  attempt that \<open>startDrill\<close> begins in a reachable aiming state is won or lost after some
  number of frames: below the horizontal the tip reaches the maximum depth, and at angle
  \<open>0\<close> it passes the lateral bound on the right. (Doubles can absorb a step that is tiny
  against the tip's coordinates; that is outside of this model.)
\<close>

theorem attempt_concludes:
  assumes r: "reachable g" and a: "state g = Aim"
    and lo: "ANGLE_MIN < angle g" and hi: "angle g \<le> ANGLE_MAX"
    and div: "\<forall>B. \<exists>n. B \<le> (\<Sum>i<n. dts i)"
  shows "\<exists>n. state (frames dts n (startDrill g)) = Win \<or>
    state (frames dts n (startDrill g)) = Lose"
proof (rule ccontr)
  let ?s = "startDrill g"
  let ?th = "deg2rad (angle g)"
  assume "\<not> ?thesis"
  moreover have s: "state ?s = Drilling"
    using a by (simp add: startDrill_def)
  ultimately have drilling: "state (frames dts n ?s) = Drilling" for n
    using frames_state [OF s, of dts n] by auto
  have speed: "drill_speed_mps ?s = 900" and tip: "drill_tip ?s = (origin_x g, 0)"
    and ang: "angle ?s = angle g"
    using reachable_inv [OF r] a
    by (simp_all add: startDrill_def game_inv_def round_ok_def getOrigin_def SURFACE_Y_WORLD_def)
  have start: "MAX_DEPTH_WORLD < snd (drill_tip ?s)" "fst (drill_tip ?s) \<le> 1100"
    using reachable_inv [OF r]
    by (simp_all add: tip game_inv_def round_ok_def config_defs)
  have pos: "MAX_DEPTH_WORLD < sin ?th * (900 * (\<Sum>i<n. dts i))"
    and lat: "origin_x g + cos ?th * (900 * (\<Sum>i<n. dts i)) \<le> 1100" for n
  proof -
    note f = frames_drilling_tip [OF drilling start, of n, unfolded speed tip ang fst_conv snd_conv]
    from f have t: "drill_tip (frames dts n ?s) =
        (origin_x g + cos ?th * (900 * (\<Sum>i<n. dts i)),
         0 + sin ?th * (900 * (\<Sum>i<n. dts i)))"
      by blast
    from f have b: "MAX_DEPTH_WORLD < snd (drill_tip (frames dts n ?s))"
      "fst (drill_tip (frames dts n ?s)) \<le> 1100"
      by blast+
    from b show "MAX_DEPTH_WORLD < sin ?th * (900 * (\<Sum>i<n. dts i))"
      and "origin_x g + cos ?th * (900 * (\<Sum>i<n. dts i)) \<le> 1100"
      unfolding t by simp_all
  qed
  show False
  proof (cases "angle g = 0")
    case True
    obtain n where n: "(1100 - origin_x g) / 900 + 1 \<le> (\<Sum>i<n. dts i)"
      using div by blast
    from lat [of n] True have "origin_x g + 900 * (\<Sum>i<n. dts i) \<le> 1100"
      by (simp add: deg2rad_def)
    with n show False by (simp add: field_simps)
  next
    case False
    with lo hi have neg: "sin ?th < 0"
      by (intro sin_negative) (simp_all add: config_defs)
    obtain n where n: "1 / (- sin ?th) \<le> (\<Sum>i<n. dts i)"
      using div by blast
    define q where "q = (- sin ?th) * (\<Sum>i<n. dts i)"
    from neg n have "1 \<le> q"
      unfolding q_def by (simp add: field_simps)
    moreover have "sin ?th * (900 * (\<Sum>i<n. dts i)) = - (900 * q)"
      by (simp add: q_def)
    ultimately show False
      using pos [of n] unfolding MAX_DEPTH_WORLD_def by linarith
  qed
qed

theorem attempt_concludes_witness:
  "reachable mid_game \<and> state mid_game = Aim \<and>
   ANGLE_MIN < angle mid_game \<and> angle mid_game \<le> ANGLE_MAX \<and>
   (\<exists>n. state (frames (\<lambda>i. 1) n (startDrill mid_game)) = Win \<or>
      state (frames (\<lambda>i. 1) n (startDrill mid_game)) = Lose)"
proof -
  have a: "state mid_game = Aim" "ANGLE_MIN < angle mid_game" "angle mid_game \<le> ANGLE_MAX"
    by (simp_all add: mid_game_fields config_defs)
  have "\<exists>n::nat. B \<le> (\<Sum>i<n. (1::real))" for B
  proof -
    obtain n :: nat where "B \<le> of_nat n"
      using real_arch_simple by blast
    then have "B \<le> (\<Sum>i<n. (1::real))"
      by simp
    then show ?thesis ..
  qed
  then have "\<forall>B. \<exists>n::nat. B \<le> (\<Sum>i<n. (1::real))"
    by blast
  from attempt_concludes [OF reachable_mid_game a this] show ?thesis
    using reachable_mid_game a by simp
qed

section \<open>Drilling due left\<close>

lemma heading_left: "cos (deg2rad (- 180)) = - 1" "sin (deg2rad (- 180)) = 0"
proof -
  have "deg2rad (- 180) = - pi" by (simp add: deg2rad_def)
  then show "cos (deg2rad (- 180)) = - 1" "sin (deg2rad (- 180)) = 0" by simp_all
qed

lemma reachable_run:
  assumes "reachable g" and "list_all event_draws_ok es"
  shows "reachable (run es g)"
  using assms
proof (induction es arbitrary: g)
  case Nil
  then show ?case by simp
next
  case (Cons e es)
  from Cons.prems have "reachable (handle e g)"
    by (simp add: reachable.after)
  with Cons.prems show ?case
    by (simp add: Cons.IH)
qed

lemma arrow_left_run:
  assumes "state g = Aim" and "angle g \<le> 0" and "- 180 \<le> angle g"
  shows "run (replicate n (KeyDown ArrowLeft rnd)) g =
    g\<lparr>angle := max (- 180) (angle g - real n)\<rparr>"
  using assms
proof (induction n arbitrary: g)
  case 0
  then show ?case by (simp add: max_def)
next
  case (Suc n)
  let ?h = "g\<lparr>angle := max (- 180) (angle g - 1)\<rparr>"
  from Suc.prems have k: "keydown ArrowLeft rnd g = ?h"
    by (simp add: keydown_def clamp_def config_defs)
  from Suc.prems have "state ?h = Aim" and "angle ?h \<le> 0" and "- 180 \<le> angle ?h"
    by simp_all
  from Suc.IH [OF this]
  have "run (replicate n (KeyDown ArrowLeft rnd)) ?h =
      ?h\<lparr>angle := max (- 180) (angle ?h - real n)\<rparr>" .
  moreover have "max (- 180) (max (- 180) (angle g - 1) - real n) =
      max (- 180) (angle g - real (Suc n))"
    by (simp add: max_def)
  ultimately show ?case
    by (simp add: k)
qed

lemma leftmost_game:
  "run (replicate 90 (KeyDown ArrowLeft mid_draws)) mid_game = mid_game\<lparr>angle := - 180\<rparr>"
proof -
  have "state mid_game = Aim" "angle mid_game \<le> 0" "- 180 \<le> angle mid_game"
    by (simp_all add: mid_game_fields)
  from arrow_left_run [OF this, of 90 mid_draws] show ?thesis
    by (simp add: mid_game_fields)
qed

lemma reachable_leftmost_game:
  "reachable (run (replicate 90 (KeyDown ArrowLeft mid_draws)) mid_game)"
  by (rule reachable_run [OF reachable_mid_game])
    (simp add: list_all_length valid_draws_def mid_draws_def)

text \<open>
  With the drill heading due left, each frame of \<open>1/64\<close> second moves the tip \<open>900 / 64\<close>
  units to the left along the surface: no hit, no depth, and no bound on that side.
\<close>

lemma leftwards_frames:
  "frames (\<lambda>i. 1 / 64) n (startDrill (mid_game\<lparr>angle := - 180\<rparr>)) =
     (startDrill (mid_game\<lparr>angle := - 180\<rparr>))\<lparr>drill_path_length := 225 / 16 * real n,
       drill_tip := (500 - 225 / 16 * real n, 0)\<rparr>"
proof (induction n)
  case 0
  show ?case
    by (simp add: mid_game_fields startDrill_def getOrigin_def SURFACE_Y_WORLD_def)
next
  case (Suc n)
  let ?s = "startDrill (mid_game\<lparr>angle := - 180\<rparr>)"
  let ?h = "?s\<lparr>drill_path_length := 225 / 16 * real n,
    drill_tip := (500 - 225 / 16 * real n, 0)\<rparr>"
  have s: "?s =
     \<lparr>angle = - 180, origin_x = 500, target_x = 575, target_y = - 700, target_radius = 25 / 2,
      state = Drilling, drill_tip = (500, 0), drill_speed_mps = 900, result_point = None,
      tries_remaining = 3, drill_path_length = 0, total_cost = 0, accumulated_cost = 0\<rparr>"
    by (simp add: mid_game_fields startDrill_def getOrigin_def SURFACE_Y_WORLD_def)
  have d: "state ?h = Drilling"
    by (simp add: s)
  have nt: "next_tip (1 / 64) ?h = (500 - 225 / 16 * real (Suc n), 0)"
    by (simp add: next_tip_def s heading_left field_simps)
  have miss: "hit_test (1 / 64) ?h = None"
    unfolding hit_test_def nt
    by (rule horizontal_miss) (simp_all add: s power2_eq_square)
  have "500 - 225 / 16 * real (Suc n) \<le> 1100"
  proof -
    have "0 \<le> 225 / 16 * real (Suc n)"
      by simp
    then show ?thesis
      by linarith
  qed
  then have inside: "\<not> (snd (next_tip (1 / 64) ?h) \<le> MAX_DEPTH_WORLD \<or>
      fst (next_tip (1 / 64) ?h) > 1100)"
    unfolding nt by (simp add: MAX_DEPTH_WORLD_def not_less)
  have "distance (x, 0) (x', 0) = \<bar>x' - x\<bar>" for x x' :: real
    by (simp add: distance_def)
  then have "distance (500 - 225 / 16 * real n, 0) (500 - 225 / 16 * real (Suc n), 0) = 225 / 16"
    by (simp add: field_simps)
  then show ?case
    unfolding frames.simps Suc.IH update_advance [OF d miss inside] nt
    by (simp add: s field_simps)
qed

text \<open>
  C4. Every drilling attempt started at an angle in \<open>[-180, 0]\<close> should come to a win or a
  loss under repeated calls of \<open>update\<close>. At the angle \<open>-180\<close> the program does not do that:
  \<open>update\<close> tests the lateral bound on the right only (\<open>drill_tip[0] > 1100\<close>), so a drill
  that heads due left meets no bound. Ninety presses of the left arrow in a fresh game
  bring the angle to \<open>-180\<close>, still aiming; the attempt started there is under way, neither
  won nor lost, after any number of frames of \<open>1/64\<close> second.
\<close>

theorem drilling_leftwards_never_ends:
  "reachable (run (replicate 90 (KeyDown ArrowLeft mid_draws)) mid_game) \<and>
   state (run (replicate 90 (KeyDown ArrowLeft mid_draws)) mid_game) = Aim \<and>
   angle (run (replicate 90 (KeyDown ArrowLeft mid_draws)) mid_game) = ANGLE_MIN \<and>
   (\<forall>n. state (frames (\<lambda>i. 1 / 64) n
      (startDrill (run (replicate 90 (KeyDown ArrowLeft mid_draws)) mid_game))) = Drilling)"
proof -
  have "\<forall>n. state (frames (\<lambda>i. 1 / 64) n (startDrill (mid_game\<lparr>angle := - 180\<rparr>))) = Drilling"
    unfolding leftwards_frames by (simp add: mid_game_fields startDrill_def)
  moreover have "state (mid_game\<lparr>angle := - 180\<rparr>) = Aim"
      "angle (mid_game\<lparr>angle := - 180\<rparr>) = ANGLE_MIN"
    by (simp_all add: mid_game_fields ANGLE_MIN_def)
  ultimately show ?thesis
    using reachable_leftmost_game unfolding leftmost_game by simp
qed

theorem drilling_leftwards_never_ends_witness:
  "state (frames (\<lambda>i. 1 / 64) 640
     (startDrill (run (replicate 90 (KeyDown ArrowLeft mid_draws)) mid_game))) = Drilling \<and>
   state (frames (\<lambda>i. 1 / 64) 640
     (startDrill (run (replicate 90 (KeyDown ArrowLeft mid_draws)) mid_game))) \<noteq> Win \<and>
   state (frames (\<lambda>i. 1 / 64) 640
     (startDrill (run (replicate 90 (KeyDown ArrowLeft mid_draws)) mid_game))) \<noteq> Lose"
proof -
  from drilling_leftwards_never_ends
  have "state (frames (\<lambda>i. 1 / 64) 640
     (startDrill (run (replicate 90 (KeyDown ArrowLeft mid_draws)) mid_game))) = Drilling"
    by blast
  then show ?thesis by simp
qed

end
